theory Spec2Isabelle
  imports Complex_Main "HOL-Library.Sublist"
begin

section \<open>Python strings and values\<close>

text \<open>
  Text is modelled as \<open>string\<close>; a \<open>char\<close> stands for one character whose code point is
  below 256, so \<open>length\<close> is Python's \<open>len\<close> on such text. The character classes below are
  those of Python 3 on that range.
\<close>

definition is_space :: "char \<Rightarrow> bool" where
  \<comment> \<open>\<open>str.isspace\<close> and the pattern class \<open>\<bslash>s\<close>\<close>
  "is_space c = (let n = (of_char c :: nat)
                 in (9 \<le> n \<and> n \<le> 13) \<or> (28 \<le> n \<and> n \<le> 32) \<or> n = 133 \<or> n = 160)"

definition is_digit :: "char \<Rightarrow> bool" where
  \<comment> \<open>the pattern class \<open>\<bslash>d\<close>\<close>
  "is_digit c = (let n = (of_char c :: nat) in 48 \<le> n \<and> n \<le> 57)"

definition is_upper_char :: "char \<Rightarrow> bool" where
  "is_upper_char c = (let n = (of_char c :: nat)
                      in (65 \<le> n \<and> n \<le> 90) \<or> (192 \<le> n \<and> n \<le> 222 \<and> n \<noteq> 215))"

definition is_lower_char :: "char \<Rightarrow> bool" where
  "is_lower_char c = (let n = (of_char c :: nat)
                      in (97 \<le> n \<and> n \<le> 122) \<or> n = 170 \<or> n = 181 \<or> n = 186
                         \<or> (223 \<le> n \<and> n \<noteq> 247))"

definition lower_char :: "char \<Rightarrow> char" where
  "lower_char c = (if is_upper_char c then char_of ((of_char c :: nat) + 32) else c)"

definition lower :: "string \<Rightarrow> string" where
  \<comment> \<open>\<open>str.lower\<close>\<close>
  "lower s = map lower_char s"

definition isupper :: "string \<Rightarrow> bool" where
  \<comment> \<open>\<open>str.isupper\<close>: no lower-case character and at least one upper-case character\<close>
  "isupper s = (\<not> list_ex is_lower_char s \<and> list_ex is_upper_char s)"

definition strip :: "string \<Rightarrow> string" where
  \<comment> \<open>\<open>str.strip()\<close>\<close>
  "strip s = rev (dropWhile is_space (rev (dropWhile is_space s)))"

fun py_in :: "string \<Rightarrow> string \<Rightarrow> bool" where
  \<comment> \<open>\<open>kw in s\<close> on strings: \<open>kw\<close> occurs in \<open>s\<close> as a contiguous piece\<close>
  "py_in kw [] = (kw = [])"
| "py_in kw (c # cs) = (prefix kw (c # cs) \<or> py_in kw cs)"

definition slice_to :: "'a list \<Rightarrow> int \<Rightarrow> 'a list" where
  \<comment> \<open>\<open>xs[:k]\<close>: a negative \<open>k\<close> counts from the end\<close>
  "slice_to xs k = (if 0 \<le> k then take (nat k) xs else take (nat (int (length xs) + k)) xs)"

definition slice_from :: "'a list \<Rightarrow> int \<Rightarrow> 'a list" where
  \<comment> \<open>\<open>xs[k:]\<close>: a negative \<open>k\<close> counts from the end\<close>
  "slice_from xs k = (if 0 \<le> k then drop (nat k) xs else drop (nat (int (length xs) + k)) xs)"

definition digit_char :: "nat \<Rightarrow> char" where
  "digit_char d = char_of (48 + d)"

fun str_nat :: "nat \<Rightarrow> string" where
  \<comment> \<open>\<open>str(n)\<close> of a non-negative integer\<close>
  "str_nat n = (if n < 10 then [digit_char n] else str_nat (n div 10) @ [digit_char (n mod 10)])"

declare str_nat.simps [simp del]

text \<open>
  Values whose type is only known at run time: what \<open>json.loads\<close> returns and what the
  fields of a \<open>QueryResult\<close> hold. A \<open>PDict\<close> lists the items of a dict, whose keys are
  distinct.
\<close>

datatype pyval =
    PNone
  | PBool bool
  | PInt int
  | PFloat real
  | PStr string
  | PList "pyval list"
  | PDict "(string \<times> pyval) list"

datatype error =
    FileNotFoundError
  | PdfError
  | ValueError
  | IndexError
  | TypeError
  | KeyError
  | EncoderError
  | ProviderError

section \<open>Data classes\<close>

record 'v DocumentChunk =
  "text" :: string
  page_number :: int
  "section" :: string
  filename :: string
  chunk_id :: string
  embedding :: "'v option"

record QueryResult =
  decision :: pyval
  amount :: pyval
  justification :: pyval
  clause_mapping :: pyval

section \<open>LLMReasoningEngine: the rule-based fallback\<close>

subsection \<open>The amount pattern\<close>

text \<open>
  \<open>re.findall(r'(?:rs\.?\s*|<rupee>\s*|inr\s*)?([\d,]+(?:\.\d{2})?)', text, re.IGNORECASE)\<close>
  returns the captured group of every match, left to right. The rupee sign U+20B9 is not a
  character of the modelled text, so its alternative never matches and is left out. No
  character of a marker is a digit or a comma, so giving back part of a greedy \<open>\<bslash>.?\<close>
  or \<open>\<bslash>s*\<close> can never let the number start earlier: the matcher is deterministic.
\<close>

definition is_num_char :: "char \<Rightarrow> bool" where
  \<comment> \<open>the class \<open>[\<bslash>d,]\<close>\<close>
  "is_num_char c = (is_digit c \<or> c = CHR '','')"

definition match_number :: "string \<Rightarrow> (string \<times> string) option" where
  \<comment> \<open>\<open>([\<bslash>d,]+(?:\<bslash>.\<bslash>d{2})?)\<close> at the start of \<open>s\<close>: the capture and the rest\<close>
  "match_number s =
     (let ds = takeWhile is_num_char s; r = dropWhile is_num_char s
      in if ds = [] then None
         else (case r of
                 d # a # b # r' \<Rightarrow>
                   if d = CHR ''.'' \<and> is_digit a \<and> is_digit b
                   then Some (ds @ [d, a, b], r') else Some (ds, r)
               | _ \<Rightarrow> Some (ds, r)))"

definition skip_dot :: "string \<Rightarrow> string" where
  \<comment> \<open>\<open>\<bslash>.?\<close>\<close>
  "skip_dot s = (case s of c # r \<Rightarrow> if c = CHR ''.'' then r else c # r | [] \<Rightarrow> [])"

definition match_marker :: "string \<Rightarrow> string option" where
  \<comment> \<open>\<open>rs\<bslash>.?\<bslash>s*\<close> or \<open>inr\<bslash>s*\<close>, ignoring case: the rest after the marker\<close>
  "match_marker s =
     (if lower (take 2 s) = ''rs'' then Some (dropWhile is_space (skip_dot (drop 2 s)))
      else if lower (take 3 s) = ''inr'' then Some (dropWhile is_space (drop 3 s))
      else None)"

definition match_amount :: "string \<Rightarrow> (string \<times> string) option" where
  \<comment> \<open>the whole pattern at the start of \<open>s\<close>: first with a marker, then without\<close>
  "match_amount s =
     (case match_marker s of
        Some r \<Rightarrow> (case match_number r of Some m \<Rightarrow> Some m | None \<Rightarrow> match_number s)
      | None \<Rightarrow> match_number s)"

lemma match_number_shorter: "match_number s = Some (m, r) \<Longrightarrow> length r < length s"
proof -
  assume a: "match_number s = Some (m, r)"
  define ds where "ds = takeWhile is_num_char s"
  define r0 where "r0 = dropWhile is_num_char s"
  have s: "s = ds @ r0" by (simp add: ds_def r0_def)
  from a have ne: "ds \<noteq> []"
    by (auto simp: match_number_def Let_def ds_def split: if_splits)
  from a ne have "length r \<le> length r0"
    unfolding match_number_def Let_def ds_def [symmetric] r0_def [symmetric]
    by (cases r0) (auto split: if_splits list.splits)
  with ne s show ?thesis by (cases ds) auto
qed

lemma if_Some_cases:
  "(if A then Some x else if B then Some y else None) = Some r \<Longrightarrow> r = x \<or> r = y"
  by (simp split: if_splits)

lemma length_skip_dot: "length (skip_dot s) \<le> length s"
  by (cases s) (simp_all add: skip_dot_def)

lemma match_marker_shorter: "match_marker s = Some r \<Longrightarrow> length r \<le> length s"
proof -
  have dw: "length (dropWhile is_space xs) \<le> length xs" for xs
    by (rule length_dropWhile_le)
  assume "match_marker s = Some r"
  then have "r = dropWhile is_space (skip_dot (drop 2 s)) \<or> r = dropWhile is_space (drop 3 s)"
    unfolding match_marker_def by (rule if_Some_cases)
  then show ?thesis
  proof
    assume r: "r = dropWhile is_space (skip_dot (drop 2 s))"
    have "length r \<le> length (skip_dot (drop 2 s))" unfolding r by (rule dw)
    also have "\<dots> \<le> length (drop 2 s)" by (rule length_skip_dot)
    also have "\<dots> \<le> length s" by simp
    finally show ?thesis .
  next
    assume r: "r = dropWhile is_space (drop 3 s)"
    have "length r \<le> length (drop 3 s)" unfolding r by (rule dw)
    also have "\<dots> \<le> length s" by simp
    finally show ?thesis .
  qed
qed

lemma match_amount_shorter: "match_amount s = Some (m, r) \<Longrightarrow> length r < length s"
proof -
  assume a: "match_amount s = Some (m, r)"
  show ?thesis
  proof (cases "match_marker s")
    case None
    with a show ?thesis by (simp add: match_amount_def match_number_shorter)
  next
    case (Some r1)
    show ?thesis
    proof (cases "match_number r1")
      case None
      with a Some show ?thesis by (simp add: match_amount_def match_number_shorter)
    next
      case (Some mr)
      with a \<open>match_marker s = Some r1\<close> have "match_number r1 = Some (m, r)"
        by (simp add: match_amount_def)
      then have "length r < length r1" by (rule match_number_shorter)
      moreover have "length r1 \<le> length s"
        using \<open>match_marker s = Some r1\<close> by (rule match_marker_shorter)
      ultimately show ?thesis by simp
    qed
  qed
qed

function findall_amounts :: "string \<Rightarrow> string list" where
  "findall_amounts [] = []"
| "findall_amounts (c # cs) =
     (case match_amount (c # cs) of
        Some (m, r) \<Rightarrow> m # findall_amounts r
      | None \<Rightarrow> findall_amounts cs)"
  by pat_completeness auto
termination
  by (relation "measure length") (auto dest: match_amount_shorter)

subsection \<open>Parsing a capture\<close>

definition digits_val :: "string \<Rightarrow> nat" where
  "digits_val ds = foldl (\<lambda>a c. 10 * a + ((of_char c :: nat) - 48)) 0 ds"

definition py_float :: "string \<Rightarrow> real option" where
  \<comment> \<open>\<open>float(s)\<close> for the forms a capture without its commas can take: digits with an optional
      point and fraction; \<open>None\<close> is \<open>ValueError\<close>. Within the accepted range the nearest
      double and the decimal value order alike, so the model keeps the decimal value.\<close>
  "py_float s =
     (let ip = takeWhile is_digit s; r = dropWhile is_digit s
      in if r = [] then (if ip = [] then None else Some (real (digits_val ip)))
         else if hd r = CHR ''.'' \<and> list_all is_digit (tl r) \<and> (ip \<noteq> [] \<or> tl r \<noteq> [])
         then Some (real (digits_val ip) + real (digits_val (tl r)) / 10 ^ length (tl r))
         else None)"

subsection \<open>The fallback\<close>

fun scan_matches :: "string list \<Rightarrow> real list \<Rightarrow> real list" where
  \<comment> \<open>the loop over the matches of one chunk\<close>
  "scan_matches [] amounts = amounts"
| "scan_matches (m # ms) amounts =
     (case py_float (filter (\<lambda>c. c \<noteq> CHR '','') m) of
        None \<Rightarrow> scan_matches ms amounts
      | Some a \<Rightarrow>
          if 100 \<le> a \<and> a \<le> 10000000 then scan_matches ms (amounts @ [a])
          else scan_matches ms amounts)"

fun scan_chunks :: "('v DocumentChunk \<times> real) list \<Rightarrow> real list \<Rightarrow> real list" where
  \<comment> \<open>the loop over the relevant chunks\<close>
  "scan_chunks [] amounts = amounts"
| "scan_chunks ((chunk, _) # rest) amounts =
     scan_chunks rest (scan_matches (findall_amounts (text chunk)) amounts)"

definition py_max :: "real list \<Rightarrow> real" where
  \<comment> \<open>\<open>max(xs)\<close> of a non-empty list\<close>
  "py_max xs = foldl max (hd xs) (tl xs)"

definition rejection_keywords :: "string list" where
  "rejection_keywords = [''excluded'', ''not covered'', ''rejected'', ''denied'', ''invalid'']"

fun scan_rejection :: "('v DocumentChunk \<times> real) list \<Rightarrow> string" where
  \<comment> \<open>the loop with \<open>break\<close>: stops at the first chunk holding a keyword\<close>
  "scan_rejection [] = ''approved''"
| "scan_rejection ((chunk, _) # rest) =
     (if list_ex (\<lambda>keyword. py_in keyword (lower (text chunk))) rejection_keywords
      then ''rejected'' else scan_rejection rest)"

definition clause_entry :: "'v DocumentChunk \<Rightarrow> pyval" where
  "clause_entry chunk =
     PDict [(''clause_text'',
             PStr (if length (text chunk) > 200 then slice_to (text chunk) 200 @ ''...''
                   else text chunk)),
            (''source'',
             PDict [(''filename'', PStr (filename chunk)),
                    (''page'', PInt (page_number chunk)),
                    (''section'', PStr (section chunk))])]"

definition rupee_sign :: string where
  \<comment> \<open>U+20B9, which is no single \<open>char\<close>: its three UTF-8 bytes stand for it in the one
      output string that holds it\<close>
  "rupee_sign = [char_of (226::nat), char_of (130::nat), char_of (185::nat)]"

fun group_thousands :: "string \<Rightarrow> string" where
  \<comment> \<open>the \<open>,\<close> format option on the integer digits\<close>
  "group_thousands ds =
     (if length ds \<le> 3 then ds
      else group_thousands (take (length ds - 3) ds) @ '','' @ drop (length ds - 3) ds)"

declare group_thousands.simps [simp del]

definition format_amount :: "real \<Rightarrow> string" where
  \<comment> \<open>\<open>f"{amount:,.2f}"\<close> of a non-negative amount with at most two decimals\<close>
  "format_amount a =
     (let cents = nat (round (a * 100))
      in group_thousands (str_nat (cents div 100)) @ ''.''
         @ [digit_char (cents mod 100 div 10), digit_char (cents mod 10)])"

definition fallback_reasoning ::
    "string \<Rightarrow> ('v DocumentChunk \<times> real) list \<Rightarrow> QueryResult" where
  "fallback_reasoning query relevant_chunks =
     (let amounts = scan_chunks relevant_chunks [];
          amount = (if amounts \<noteq> [] then Some (py_max amounts) else None);
          decision = scan_rejection relevant_chunks;
          clause_mapping = map (\<lambda>(chunk, score). clause_entry chunk) (slice_to relevant_chunks 3);
          justification =
            ''Decision based on analysis of '' @ str_nat (length relevant_chunks)
            @ '' relevant clauses from the policy document. ''
            @ (if decision = ''approved'' \<and> amount \<noteq> None
               then ''Claim approved for amount '' @ rupee_sign @ format_amount (the amount) @ ''.''
               else if decision = ''rejected''
               then ''Claim rejected based on policy exclusions or limitations.''
               else ''Policy terms analyzed but no specific amount determined.'')
      in \<lparr> decision = PStr decision,
           amount = (case amount of None \<Rightarrow> PNone | Some a \<Rightarrow> PFloat a),
           justification = PStr justification,
           clause_mapping = PList clause_mapping \<rparr>)"

section \<open>LLMReasoningEngine: the primary strategy\<close>

text \<open>
  The provider and \<open>json.loads\<close> are outside the repository. What they do on one call is an
  input of the model: the call (or reading the content of its reply) raises, the reply is
  not JSON, or the reply decodes to a value. The prompt is built from the query and the
  chunks and only handed to the provider, so it does not appear.
\<close>

datatype llm_outcome =
    CallFails
  | NotJson
  | Json pyval

definition make_QueryResult :: "pyval \<Rightarrow> error + QueryResult" where
  \<comment> \<open>\<open>QueryResult(**result_dict)\<close>: a \<open>TypeError\<close> unless \<open>result_dict\<close> is a dict whose keys
      are exactly the four fields; the values are stored as they are\<close>
  "make_QueryResult v =
     (case v of
        PDict items \<Rightarrow>
          (case (map_of items ''decision'', map_of items ''amount'',
                 map_of items ''justification'', map_of items ''clause_mapping'') of
             (Some d, Some a, Some j, Some c) \<Rightarrow>
               if length items = 4
               then Inr \<lparr> decision = d, amount = a, justification = j, clause_mapping = c \<rparr>
               else Inl TypeError
           | _ \<Rightarrow> Inl TypeError)
      | _ \<Rightarrow> Inl TypeError)"

definition primary_reasoning ::
    "llm_outcome \<Rightarrow> string \<Rightarrow> ('v DocumentChunk \<times> real) list \<Rightarrow> error + QueryResult" where
  \<comment> \<open>the body of the outer \<open>try\<close> once an API key is present; the inner handler catches
      \<open>JSONDecodeError\<close> only\<close>
  "primary_reasoning outcome query relevant_chunks =
     (case outcome of
        CallFails \<Rightarrow> Inl ProviderError
      | NotJson \<Rightarrow> Inr (fallback_reasoning query relevant_chunks)
      | Json result_dict \<Rightarrow> make_QueryResult result_dict)"

definition generate_response ::
    "string option \<Rightarrow> llm_outcome \<Rightarrow> string \<Rightarrow> ('v DocumentChunk \<times> real) list
     \<Rightarrow> QueryResult" where
  \<comment> \<open>\<open>api_key\<close> is \<open>self.api_key\<close>; \<open>not self.api_key\<close> holds for \<open>None\<close> and for the empty
      string\<close>
  "generate_response api_key outcome query relevant_chunks =
     (if api_key = None \<or> api_key = Some []
      then fallback_reasoning query relevant_chunks
      else (case primary_reasoning outcome query relevant_chunks of
              Inl e \<Rightarrow> fallback_reasoning query relevant_chunks
            | Inr result \<Rightarrow> result))"

section \<open>PDFProcessor\<close>

record PDFProcessor =
  chunk_size :: int
  overlap :: int

definition PDFProcessor_init :: PDFProcessor where
  "PDFProcessor_init = \<lparr> chunk_size = 500, overlap = 50 \<rparr>"

function collapse_ws :: "string \<Rightarrow> string" where
  \<comment> \<open>\<open>re.sub(r'\<bslash>s+', ' ', text)\<close>\<close>
  "collapse_ws [] = []"
| "collapse_ws (c # cs) =
     (if is_space c then CHR '' '' # collapse_ws (dropWhile is_space cs)
      else c # collapse_ws cs)"
  by pat_completeness auto
termination
  by (relation "measure length") (auto simp: less_Suc_eq_le length_dropWhile_le)

definition is_stop :: "char \<Rightarrow> bool" where
  \<comment> \<open>the class \<open>[.!?]\<close>\<close>
  "is_stop c = (c = CHR ''.'' \<or> c = CHR ''!'' \<or> c = CHR ''?'')"

function split_sentences :: "string \<Rightarrow> string \<Rightarrow> string list" where
  \<comment> \<open>\<open>re.split(r'[.!?]+\<bslash>s+', text)\<close>; the first argument is the piece read so far. A run
      of stops that no white space follows stays in the piece.\<close>
  "split_sentences cur [] = [cur]"
| "split_sentences cur (c # cs) =
     (if is_stop c
      then (let run = takeWhile is_stop (c # cs); r = dropWhile is_stop (c # cs)
            in if r \<noteq> [] \<and> is_space (hd r)
               then cur # split_sentences [] (dropWhile is_space r)
               else split_sentences (cur @ run) r)
      else split_sentences (cur @ [c]) cs)"
  by pat_completeness auto
termination
proof (relation "measure (\<lambda>(cur, s). length s)")
  show "wf (measure (\<lambda>(cur, s). length s))" by simp
next
  fix cur :: string and c cs run r
  assume "is_stop c" and r: "r = dropWhile is_stop (c # cs)"
  then have le: "length r \<le> length cs" by (simp add: length_dropWhile_le)
  have "length (dropWhile is_space r) \<le> length r" by (rule length_dropWhile_le)
  with le show "(([], dropWhile is_space r), (cur, c # cs)) \<in> measure (\<lambda>(cur, s). length s)"
    by simp
next
  fix cur :: string and c cs run r
  assume "is_stop c" and r: "r = dropWhile is_stop (c # cs)"
  then have "length r \<le> length cs" by (simp add: length_dropWhile_le)
  then show "((cur @ run, r), (cur, c # cs)) \<in> measure (\<lambda>(cur, s). length s)"
    by simp
next
  fix cur :: string and c cs
  show "((cur @ [c], cs), (cur, c # cs)) \<in> measure (\<lambda>(cur, s). length s)" by simp
qed

function py_words :: "string \<Rightarrow> string list" where
  \<comment> \<open>\<open>str.split()\<close>\<close>
  "py_words s =
     (let s' = dropWhile is_space s
      in if s' = [] then []
         else takeWhile (\<lambda>c. \<not> is_space c) s' # py_words (dropWhile (\<lambda>c. \<not> is_space c) s'))"
  by pat_completeness auto
termination
proof (relation "measure length")
  show "wf (measure length)" by simp
next
  fix s s' :: string
  assume s': "s' = dropWhile is_space s" and ne: "s' \<noteq> []"
  from ne obtain c r where cr: "s' = c # r" by (cases s') simp_all
  have "\<not> is_space (hd s')" using ne unfolding s' by (rule hd_dropWhile)
  then have "\<not> is_space c" using cr by simp
  then have "dropWhile (\<lambda>c. \<not> is_space c) s' = dropWhile (\<lambda>c. \<not> is_space c) r"
    using cr by simp
  then have "length (dropWhile (\<lambda>c. \<not> is_space c) s') \<le> length r"
    by (simp add: length_dropWhile_le)
  also have "\<dots> < length s'" using cr by simp
  also have "\<dots> \<le> length s" unfolding s' by (rule length_dropWhile_le)
  finally show "(dropWhile (\<lambda>c. \<not> is_space c) s', s) \<in> measure length" by simp
qed

declare py_words.simps [simp del]

fun join_sp :: "string list \<Rightarrow> string" where
  \<comment> \<open>\<open>' '.join(ws)\<close>\<close>
  "join_sp [] = []"
| "join_sp [w] = w"
| "join_sp (w # ws) = w @ '' '' @ join_sp ws"

fun accumulate ::
    "PDFProcessor \<Rightarrow> string list \<Rightarrow> string \<Rightarrow> string list \<Rightarrow> string list \<times> string" where
  \<comment> \<open>the loop over the sentences, on \<open>current_chunk\<close> and \<open>chunks\<close>\<close>
  "accumulate self [] current_chunk chunks = (chunks, current_chunk)"
| "accumulate self (sentence # rest) current_chunk chunks =
     (let sentence = strip sentence
      in if sentence = [] then accumulate self rest current_chunk chunks
         else if int (length current_chunk) + int (length sentence) > chunk_size self
                 \<and> current_chunk \<noteq> []
         then (let ws = py_words current_chunk;
                   overlap_words = (if int (length ws) > overlap self div 5
                                    then slice_from ws ((- overlap self) div 5) else ws)
               in accumulate self rest (join_sp overlap_words @ '' '' @ sentence)
                    (chunks @ [current_chunk]))
         else accumulate self rest
                (if current_chunk \<noteq> [] then current_chunk @ '' '' @ sentence else sentence)
                chunks)"

definition split_text_into_chunks :: "PDFProcessor \<Rightarrow> string \<Rightarrow> string list" where
  "split_text_into_chunks self txt =
     (let txt = strip (collapse_ws txt);
          sentences = split_sentences [] txt;
          (chunks, current_chunk) = accumulate self sentences [] []
      in if strip current_chunk \<noteq> [] then chunks @ [current_chunk] else chunks)"

fun split_on_newline :: "string \<Rightarrow> string \<Rightarrow> string list" where
  \<comment> \<open>the first argument is the line read so far\<close>
  "split_on_newline cur [] = [cur]"
| "split_on_newline cur (c # cs) =
     (if c = CHR 0x0A then cur # split_on_newline [] cs else split_on_newline (cur @ [c]) cs)"

definition split_lines :: "string \<Rightarrow> string list" where
  \<comment> \<open>\<open>text.split('\<bslash>n')\<close>\<close>
  "split_lines s = split_on_newline [] s"

definition is_heading :: "string \<Rightarrow> bool" where
  \<comment> \<open>the test on a stripped line\<close>
  "is_heading line = (length line > 5 \<and> isupper line \<and> length line < 100)"

definition page_section :: "string \<Rightarrow> string" where
  \<comment> \<open>the loop over the lines of a page, from \<open>current_section = "General"\<close>\<close>
  "page_section txt =
     foldl (\<lambda>current_section line. if is_heading (strip line) then strip line
                                      else current_section)
       ''General'' (split_lines txt)"

definition page_chunks ::
    "PDFProcessor \<Rightarrow> string \<Rightarrow> nat \<Rightarrow> string \<Rightarrow> 'v DocumentChunk list" where
  \<comment> \<open>the body of the loop over the pages, for page index \<open>page_num\<close> (from 0)\<close>
  "page_chunks self fname page_num txt =
     (if strip txt = [] then []
      else (let current_section = page_section txt;
                pcs = split_text_into_chunks self txt
            in concat (map (\<lambda>(chunk_idx, chunk_text).
                 if length (strip chunk_text) < 50 then []
                 else [\<lparr> text = strip chunk_text,
                         page_number = int page_num + 1,
                         section = current_section,
                         filename = fname,
                         chunk_id = fname @ ''_p'' @ str_nat (page_num + 1)
                                    @ ''_c'' @ str_nat (chunk_idx + 1),
                         embedding = None \<rparr>])
               (enumerate 0 pcs))))"

definition extract_chunks ::
    "PDFProcessor \<Rightarrow> string \<Rightarrow> string list \<Rightarrow> 'v DocumentChunk list" where
  \<comment> \<open>the chunks of a document, page after page\<close>
  "extract_chunks self fname pages =
     concat (map (\<lambda>(page_num, txt). page_chunks self fname page_num txt) (enumerate 0 pages))"

definition basename :: "string \<Rightarrow> string" where
  \<comment> \<open>\<open>os.path.basename\<close>\<close>
  "basename p = rev (takeWhile (\<lambda>c. c \<noteq> CHR ''/'') (rev p))"

section \<open>Objects\<close>

text \<open>
  Chunks and lists are objects: a reference is an address, and the store maps the address of a
  chunk to its fields and the address of a list to the references it holds. \<open>next_ref\<close> is
  the first address not yet given out.
\<close>

record 'v store =
  chunk_objs :: "nat \<Rightarrow> 'v DocumentChunk"
  list_objs :: "nat \<Rightarrow> nat list"
  next_ref :: nat

fun new_chunks :: "'v store \<Rightarrow> 'v DocumentChunk list \<Rightarrow> 'v store \<times> nat list" where
  \<comment> \<open>a new object for each chunk, in order\<close>
  "new_chunks h [] = (h, [])"
| "new_chunks h (c # cs) =
     (let r = next_ref h;
          (h', rs) = new_chunks (h\<lparr> chunk_objs := (chunk_objs h)(r := c), next_ref := Suc r \<rparr>) cs
      in (h', r # rs))"

definition new_list :: "'v store \<Rightarrow> nat list \<Rightarrow> 'v store \<times> nat" where
  "new_list h rs =
     (h\<lparr> list_objs := (list_objs h)(next_ref h := rs), next_ref := Suc (next_ref h) \<rparr>,
      next_ref h)"

definition chunks_of :: "'v store \<Rightarrow> nat \<Rightarrow> 'v DocumentChunk list" where
  \<comment> \<open>the chunks a list object holds, as they are now\<close>
  "chunks_of h l = map (chunk_objs h) (list_objs h l)"

text \<open>
  PyMuPDF and the file system are outside the repository: a path names no file, a file that
  cannot be read as a PDF, or a document with the text of its pages.
\<close>

datatype pdf_file =
    Missing
  | Unreadable
  | Pages "string list"

definition extract_text_from_pdf ::
    "(string \<Rightarrow> pdf_file) \<Rightarrow> PDFProcessor \<Rightarrow> 'v store \<Rightarrow> string
     \<Rightarrow> error + ('v store \<times> nat)" where
  \<comment> \<open>returns the store with the new chunk objects and the reference of the new list\<close>
  "extract_text_from_pdf fs self h pdf_path =
     (case fs pdf_path of
        Missing \<Rightarrow> Inl FileNotFoundError
      | Unreadable \<Rightarrow> Inl PdfError
      | Pages pages \<Rightarrow>
          (let (h1, rs) = new_chunks h (extract_chunks self (basename pdf_path) pages)
           in Inr (new_list h1 rs)))"

section \<open>EmbeddingEngine\<close>

text \<open>
  The sentence-transformer model and scikit-learn's \<open>cosine_similarity\<close> are outside the
  repository: \<open>enc\<close> maps a batch of texts to one vector each or raises, and \<open>cosine\<close> scores
  two vectors. Vectors are of an arbitrary type \<open>'v\<close>, scores are real numbers.
\<close>

record 'v EmbeddingEngine =
  chunks :: nat
  embeddings :: "'v list option"

fun store_embeddings ::
    "'v store \<Rightarrow> (nat \<times> nat) list \<Rightarrow> 'v list \<Rightarrow> 'v store \<times> error option" where
  \<comment> \<open>\<open>for i, chunk in enumerate(self.chunks): chunk.embedding = embeddings[i]\<close>\<close>
  "store_embeddings h [] embs = (h, None)"
| "store_embeddings h ((i, r) # rest) embs =
     (if i < length embs
      then store_embeddings
             (h\<lparr> chunk_objs := (chunk_objs h)(r := (chunk_objs h r)\<lparr> embedding := Some (embs ! i) \<rparr>) \<rparr>)
             rest embs
      else (h, Some IndexError))"

definition create_embeddings ::
    "(string list \<Rightarrow> error + 'v list) \<Rightarrow> 'v store \<Rightarrow> 'v EmbeddingEngine \<Rightarrow> nat
     \<Rightarrow> 'v store \<times> 'v EmbeddingEngine \<times> error option" where
  \<comment> \<open>\<open>chunks_ref\<close> is the reference of the caller's list; returns the store and the engine as
      the call leaves them, and the exception if it raised\<close>
  "create_embeddings enc h self chunks_ref =
     (let self1 = self\<lparr> chunks := chunks_ref \<rparr>;
          texts = map text (chunks_of h chunks_ref)
      in case enc texts of
           Inl e \<Rightarrow> (h, self1, Some e)
         | Inr embs \<Rightarrow>
             (let self2 = self1\<lparr> embeddings := Some embs \<rparr>;
                  (h', err) = store_embeddings h (enumerate 0 (list_objs h (chunks self2))) embs
              in (h', self2, err)))"

definition argsort :: "real list \<Rightarrow> nat list" where
  \<comment> \<open>\<open>np.argsort\<close>: the indices in ascending order of their values; indices of equal values
      stay in index order, as NumPy's insertion sort of short arrays leaves them\<close>
  "argsort xs = sort_key (\<lambda>i. xs ! i) [0..<length xs]"

definition top_indices :: "real list \<Rightarrow> int \<Rightarrow> nat list" where
  \<comment> \<open>\<open>np.argsort(similarities)[::-1][:top_k]\<close>\<close>
  "top_indices similarities top_k = slice_to (rev (argsort similarities)) top_k"

fun collect_results ::
    "'v DocumentChunk list \<Rightarrow> real list \<Rightarrow> nat list
     \<Rightarrow> error + ('v DocumentChunk \<times> real) list" where
  \<comment> \<open>the loop over \<open>top_indices\<close>; \<open>self.chunks[idx]\<close> raises past the end of the list\<close>
  "collect_results cs similarities [] = Inr []"
| "collect_results cs similarities (idx # rest) =
     (if idx < length cs
      then (case collect_results cs similarities rest of
              Inl e \<Rightarrow> Inl e
            | Inr results \<Rightarrow> Inr ((cs ! idx, similarities ! idx) # results))
      else Inl IndexError)"

definition semantic_search ::
    "(string list \<Rightarrow> error + 'v list) \<Rightarrow> ('v \<Rightarrow> 'v \<Rightarrow> real) \<Rightarrow> 'v store \<Rightarrow> 'v EmbeddingEngine
     \<Rightarrow> string \<Rightarrow> int \<Rightarrow> error + ('v DocumentChunk \<times> real) list" where
  \<comment> \<open>a hit holds the chunk as it is in the store; \<open>cosine_similarity\<close> raises \<open>ValueError\<close> on
      a matrix without rows\<close>
  "semantic_search enc cosine h self query top_k =
     (case embeddings self of
        None \<Rightarrow> Inl ValueError
      | Some embs \<Rightarrow>
          if length (list_objs h (chunks self)) = 0 then Inl ValueError
          else (case enc [query] of
                  Inl e \<Rightarrow> Inl e
                | Inr query_embedding \<Rightarrow>
                    if query_embedding = [] \<or> embs = [] then Inl ValueError
                    else (let similarities = map (cosine (hd query_embedding)) embs
                          in collect_results (chunks_of h (chunks self)) similarities
                               (top_indices similarities top_k))))"

section \<open>RAGPolicyQA\<close>

record 'v RAGPolicyQA =
  pdf_processor :: PDFProcessor
  embedding_engine :: "'v EmbeddingEngine"
  api_key :: "string option"
  is_initialized :: bool

definition RAGPolicyQA_init :: "'v store \<Rightarrow> string option \<Rightarrow> 'v store \<times> 'v RAGPolicyQA" where
  \<comment> \<open>\<open>api_key\<close> is the key the reasoning engine ends up with; the embedding engine starts
      with a new empty list and no matrix\<close>
  "RAGPolicyQA_init h key =
     (let (h1, l) = new_list h []
      in (h1, \<lparr> pdf_processor = PDFProcessor_init,
                embedding_engine = \<lparr> chunks = l, embeddings = None \<rparr>,
                api_key = key,
                is_initialized = False \<rparr>))"

definition process_document ::
    "(string \<Rightarrow> pdf_file) \<Rightarrow> (string list \<Rightarrow> error + 'v list) \<Rightarrow> 'v store \<Rightarrow> 'v RAGPolicyQA
     \<Rightarrow> string \<Rightarrow> 'v store \<times> 'v RAGPolicyQA \<times> error option" where
  \<comment> \<open>returns the store and the orchestrator as the call leaves them, and the exception if
      it raised\<close>
  "process_document fs enc h self pdf_path =
     (case extract_text_from_pdf fs (pdf_processor self) h pdf_path of
        Inl e \<Rightarrow> (h, self, Some e)
      | Inr (h1, chunks_ref) \<Rightarrow>
          if list_objs h1 chunks_ref = [] then (h1, self, Some ValueError)
          else (let (h2, engine, err) = create_embeddings enc h1 (embedding_engine self) chunks_ref;
                    self1 = self\<lparr> embedding_engine := engine \<rparr>
                in case err of
                     Some e \<Rightarrow> (h2, self1, Some e)
                   | None \<Rightarrow> (h2, self1\<lparr> is_initialized := True \<rparr>, None)))"

fun clause_source :: "pyval \<Rightarrow> error option" where
  \<comment> \<open>\<open>clause['source']\<close>: a dict needs the key, anything else cannot be subscripted by a
      string\<close>
  "clause_source (PDict items) = (if map_of items ''source'' = None then Some KeyError else None)"
| "clause_source _ = Some TypeError"

fun audit_loop :: "pyval list \<Rightarrow> error option" where
  "audit_loop [] = None"
| "audit_loop (clause # rest) =
     (case clause_source clause of Some e \<Rightarrow> Some e | None \<Rightarrow> audit_loop rest)"

fun audit_trail :: "pyval \<Rightarrow> error option" where
  \<comment> \<open>the logging loop over \<open>result.clause_mapping\<close>: iterating a number, a Boolean or \<open>None\<close>
      raises; a string yields its characters and a dict its keys, which are strings\<close>
  "audit_trail (PList clauses) = audit_loop clauses"
| "audit_trail (PStr s) = (if s = [] then None else Some TypeError)"
| "audit_trail (PDict items) = (if items = [] then None else Some TypeError)"
| "audit_trail _ = Some TypeError"

definition no_relevant_result :: QueryResult where
  "no_relevant_result =
     \<lparr> decision = PStr ''rejected'',
       amount = PNone,
       justification = PStr ''No relevant policy clauses found for the query.'',
       clause_mapping = PList [] \<rparr>"

definition query ::
    "(string list \<Rightarrow> error + 'v list) \<Rightarrow> ('v \<Rightarrow> 'v \<Rightarrow> real) \<Rightarrow> llm_outcome \<Rightarrow> 'v store
     \<Rightarrow> 'v RAGPolicyQA \<Rightarrow> string \<Rightarrow> int \<Rightarrow> error + QueryResult" where
  "query enc cosine outcome h self user_query top_k =
     (if \<not> is_initialized self then Inl ValueError
      else (case semantic_search enc cosine h (embedding_engine self) user_query top_k of
              Inl e \<Rightarrow> Inl e
            | Inr relevant_chunks \<Rightarrow>
                if relevant_chunks = [] then Inr no_relevant_result
                else (let result = generate_response (api_key self) outcome user_query
                                     relevant_chunks
                      in case audit_trail (clause_mapping result) of
                           Some e \<Rightarrow> Inl e
                         | None \<Rightarrow> Inr result)))"

section \<open>Example data\<close>

text \<open>
  A small loaded system for the concrete instances below: vectors are integers, the
  encoder maps every text to 1 and refuses a batch with a text of more than 60 characters,
  and the score of two vectors is their product. The corpus holds two chunks with equal
  vectors, at the addresses 0 and 1, in a list at the address 2.
\<close>

definition ex_chunk :: "string \<Rightarrow> string \<Rightarrow> int DocumentChunk" where
  "ex_chunk txt cid =
     \<lparr> text = txt, page_number = 1, section = ''General'', filename = ''policy.pdf'',
       chunk_id = cid, embedding = Some 7 \<rparr>"

definition ex_store :: "int store" where
  "ex_store =
     \<lparr> chunk_objs = (\<lambda>r. if r = 1 then ex_chunk ''Hip surgery is covered'' ''policy.pdf_p1_c2''
                           else ex_chunk ''Knee surgery is covered'' ''policy.pdf_p1_c1''),
       list_objs = (\<lambda>l. if l = 2 then [0, 1] else []),
       next_ref = 3 \<rparr>"

definition ex_engine :: "int EmbeddingEngine" where
  "ex_engine = \<lparr> chunks = 2, embeddings = Some [7, 7] \<rparr>"

definition ex_rag :: "int RAGPolicyQA" where
  "ex_rag = \<lparr> pdf_processor = PDFProcessor_init, embedding_engine = ex_engine,
               api_key = None, is_initialized = True \<rparr>"

definition ex_enc :: "string list \<Rightarrow> error + int list" where
  "ex_enc texts = (if list_ex (\<lambda>t. length t > 60) texts then Inl EncoderError
                   else Inr (map (\<lambda>t. 1) texts))"

definition ex_cosine :: "int \<Rightarrow> int \<Rightarrow> real" where
  "ex_cosine a b = real_of_int (a * b)"

definition ex_fs :: "string \<Rightarrow> pdf_file" where
  \<comment> \<open>one readable document of one page, one document whose only page is blank\<close>
  "ex_fs path =
     (if path = ''docs/new.pdf''
      then Pages [''Maternity expenses are covered after a waiting period of nine months.'']
      else if path = ''docs/blank.pdf'' then Pages [''   '']
      else Missing)"

section \<open>The fallback's decision\<close>

lemma py_in_sublist: "py_in kw s \<longleftrightarrow> sublist kw s"
  by (induction s) (auto simp: sublist_Cons_right)

lemma scan_rejection_iff:
  "scan_rejection hits =
     (if \<exists>(chunk, score) \<in> set hits. \<exists>kw \<in> set rejection_keywords. sublist kw (lower (text chunk))
      then ''rejected'' else ''approved'')"
  by (induction hits rule: scan_rejection.induct)
     (auto simp: list_ex_iff py_in_sublist)

lemma decision_fallback: "decision (fallback_reasoning q hits) = PStr (scan_rejection hits)"
  by (simp add: fallback_reasoning_def Let_def)

lemma scan_rejection_take:
  "i < length hits \<Longrightarrow> list_ex (\<lambda>kw. py_in kw (lower (text (fst (hits ! i))))) rejection_keywords
   \<Longrightarrow> scan_rejection (take (Suc i) hits @ rest) = ''rejected''"
proof (induction hits arbitrary: i rule: scan_rejection.induct)
  case 1
  then show ?case by simp
next
  case (2 chunk uu rest')
  then show ?case by (cases i) auto
qed

text \<open>
  Claim C4. The fallback decides \<open>rejected\<close> exactly when the text of some ranked chunk, in
  lower case, holds one of the five rejection keywords, and \<open>approved\<close> otherwise. The scan
  stops at the first such chunk: whatever follows it in the ranking does not change the
  decision. The amount plays no part in it.
\<close>

theorem fallback_decision:
  "decision (fallback_reasoning q hits) =
     (if \<exists>(chunk, score) \<in> set hits.
           \<exists>kw \<in> set rejection_keywords. sublist kw (lower (text chunk))
      then PStr ''rejected'' else PStr ''approved'')
   \<and> (\<forall>i < length hits.
        (\<exists>kw \<in> set rejection_keywords. sublist kw (lower (text (fst (hits ! i)))))
        \<longrightarrow> (\<forall>rest. decision (fallback_reasoning q (take (Suc i) hits @ rest))
                     = PStr ''rejected''))"
proof (intro conjI allI impI)
  show "decision (fallback_reasoning q hits) =
     (if \<exists>(chunk, score) \<in> set hits.
           \<exists>kw \<in> set rejection_keywords. sublist kw (lower (text chunk))
      then PStr ''rejected'' else PStr ''approved'')"
    unfolding decision_fallback by (subst scan_rejection_iff) simp
next
  fix i rest
  assume "i < length hits"
    and "\<exists>kw \<in> set rejection_keywords. sublist kw (lower (text (fst (hits ! i))))"
  then show "decision (fallback_reasoning q (take (Suc i) hits @ rest)) = PStr ''rejected''"
    unfolding decision_fallback
    by (simp add: scan_rejection_take list_ex_iff py_in_sublist)
qed


theorem fallback_decision_witness:
  "decision (fallback_reasoning ''knee surgery''
     [(\<lparr> text = ''Cosmetic surgery is NOT Covered under this plan'', page_number = 1,
         section = ''General'', filename = ''p.pdf'', chunk_id = ''p.pdf_p1_c1'',
         embedding = None :: nat option \<rparr>, 0.9)]) = PStr ''rejected''"
proof -
  let ?c = "\<lparr> text = ''Cosmetic surgery is NOT Covered under this plan'', page_number = 1,
         section = ''General'', filename = ''p.pdf'', chunk_id = ''p.pdf_p1_c1'',
         embedding = None :: nat option \<rparr>"
  have k: "''not covered'' \<in> set rejection_keywords"
    by (simp add: rejection_keywords_def)
  have "py_in ''not covered'' (lower ''Cosmetic surgery is NOT Covered under this plan'')"
    by code_simp
  then have s: "sublist ''not covered'' (lower (text ?c))"
    by (simp only: py_in_sublist DocumentChunk.simps)
  have ex: "\<exists>(chunk, score) \<in> set [(?c, 0.9::real)].
              \<exists>kw \<in> set rejection_keywords. sublist kw (lower (text chunk))"
    using k s by auto
  from fallback_decision [of "''knee surgery''" "[(?c, 0.9)]"] ex show ?thesis
    by (simp only: if_True)
qed

section \<open>The fallback's amount\<close>

lemma set_scan_matches:
  "set (scan_matches ms amounts) =
     set amounts \<union> {a. \<exists>m \<in> set ms. py_float (filter (\<lambda>c. c \<noteq> CHR '','') m) = Some a
                              \<and> 100 \<le> a \<and> a \<le> 10000000}"
  by (induction ms arbitrary: amounts) (auto split: option.splits)

lemma set_scan_chunks:
  "set (scan_chunks hits amounts) =
     set amounts \<union> {a. \<exists>(chunk, score) \<in> set hits. \<exists>m \<in> set (findall_amounts (text chunk)).
                          py_float (filter (\<lambda>c. c \<noteq> CHR '','') m) = Some a
                          \<and> 100 \<le> a \<and> a \<le> 10000000}"
proof (induction hits arbitrary: amounts)
  case Nil
  then show ?case by simp
next
  case (Cons h hits)
  obtain chunk score where h: "h = (chunk, score)" by (cases h)
  show ?case unfolding h by (simp add: Cons.IH set_scan_matches) blast
qed

lemma py_max_Max: "xs \<noteq> [] \<Longrightarrow> py_max xs = Max (set xs)"
proof -
  assume "xs \<noteq> []"
  then obtain y ys where xs: "xs = y # ys" by (cases xs) auto
  have "foldl max y ys = fold max ys y"
    by (simp add: foldl_conv_fold max.commute)
  also have "\<dots> = Max (set (y # ys))" by (rule Max.set_eq_fold [symmetric])
  finally show ?thesis unfolding xs py_max_def by (simp only: list.sel)
qed

lemma amount_fallback:
  "amount (fallback_reasoning q hits) =
     (if scan_chunks hits [] = [] then PNone else PFloat (py_max (scan_chunks hits [])))"
  by (simp add: fallback_reasoning_def Let_def)


lemma findall_claim: "findall_amounts ''claim amount is Rs. 15,000'' = [''15,000'']"
  by code_simp

lemma findall_penalty: "findall_amounts ''penalty is Rs. 500'' = [''500'']"
  by code_simp

lemma scan_15000: "scan_matches [''15,000''] amounts = amounts @ [15000]"
  by (simp add: py_float_def is_digit_def digits_val_def)

lemma scan_500: "scan_matches [''500''] amounts = amounts @ [500]"
  by (simp add: py_float_def is_digit_def digits_val_def)

text \<open>
  Claim C3. The amount the fallback reports is the largest value in the range from 100 to
  10,000,000 among the values the pattern finds in the texts of all ranked chunks, and
  \<open>None\<close> when there is no such value. For two chunks with the texts
  "claim amount is Rs. 15,000" and "penalty is Rs. 500" it is 15000.0.
\<close>

theorem fallback_amount:
  "amount (fallback_reasoning q hits) =
     (let found = {a. \<exists>(chunk, score) \<in> set hits. \<exists>m \<in> set (findall_amounts (text chunk)).
                        py_float (filter (\<lambda>c. c \<noteq> CHR '','') m) = Some a
                        \<and> 100 \<le> a \<and> a \<le> 10000000}
      in if found = {} then PNone else PFloat (Max found))
   \<and> (text c1 = ''claim amount is Rs. 15,000'' \<longrightarrow> text c2 = ''penalty is Rs. 500'' \<longrightarrow>
        amount (fallback_reasoning q [(c1, s1), (c2, s2)]) = PFloat 15000)"
proof
  let ?found = "{a. \<exists>(chunk, score) \<in> set hits. \<exists>m \<in> set (findall_amounts (text chunk)).
                        py_float (filter (\<lambda>c. c \<noteq> CHR '','') m) = Some a
                        \<and> 100 \<le> a \<and> a \<le> 10000000}"
  have set_eq: "set (scan_chunks hits []) = ?found"
    by (simp add: set_scan_chunks)
  show "amount (fallback_reasoning q hits) =
     (let found = ?found in if found = {} then PNone else PFloat (Max found))"
  proof (cases "scan_chunks hits [] = []")
    case True
    with set_eq have "?found = {}" by (metis set_empty)
    with True show ?thesis by (simp only: amount_fallback Let_def refl if_True)
  next
    case False
    with set_eq have ne: "?found \<noteq> {}" by (metis set_empty)
    have "py_max (scan_chunks hits []) = Max ?found"
      using py_max_Max [OF False] set_eq by simp
    with False ne show ?thesis by (simp only: amount_fallback Let_def if_False)
  qed
next
  show "text c1 = ''claim amount is Rs. 15,000'' \<longrightarrow> text c2 = ''penalty is Rs. 500'' \<longrightarrow>
        amount (fallback_reasoning q [(c1, s1), (c2, s2)]) = PFloat 15000"
  proof (intro impI)
    assume t: "text c1 = ''claim amount is Rs. 15,000''" "text c2 = ''penalty is Rs. 500''"
    have "scan_chunks [(c1, s1), (c2, s2)] [] = [15000, 500]"
      by (simp only: scan_chunks.simps t findall_claim findall_penalty scan_15000 scan_500
            append_Nil append_Cons)
    then show "amount (fallback_reasoning q [(c1, s1), (c2, s2)]) = PFloat 15000"
      by (simp add: amount_fallback py_max_def)
  qed
qed


theorem fallback_amount_witness:
  "amount (fallback_reasoning ''claim for knee surgery''
     [(\<lparr> text = ''claim amount is Rs. 15,000'', page_number = 2, section = ''General'',
         filename = ''policy.pdf'', chunk_id = ''policy.pdf_p2_c1'',
         embedding = None :: nat option \<rparr>, 0.9),
      (\<lparr> text = ''penalty is Rs. 500'', page_number = 3, section = ''General'',
         filename = ''policy.pdf'', chunk_id = ''policy.pdf_p3_c1'',
         embedding = None \<rparr>, 0.8)]) = PFloat 15000"
proof -
  let ?c1 = "\<lparr> text = ''claim amount is Rs. 15,000'', page_number = 2, section = ''General'',
         filename = ''policy.pdf'', chunk_id = ''policy.pdf_p2_c1'',
         embedding = None :: nat option \<rparr>"
  let ?c2 = "\<lparr> text = ''penalty is Rs. 500'', page_number = 3, section = ''General'',
         filename = ''policy.pdf'', chunk_id = ''policy.pdf_p3_c1'',
         embedding = None :: nat option \<rparr>"
  have t1: "text ?c1 = ''claim amount is Rs. 15,000''" by (simp only: DocumentChunk.simps)
  have t2: "text ?c2 = ''penalty is Rs. 500''" by (simp only: DocumentChunk.simps)
  from fallback_amount [of "''claim for knee surgery''" "[]" ?c1 ?c2 "0.9" "0.8"] t1 t2
  show ?thesis by blast
qed

section \<open>The primary strategy and its failover\<close>

lemma make_QueryResult_ok:
  "length items = 4 \<Longrightarrow> map_of items ''decision'' = Some d \<Longrightarrow> map_of items ''amount'' = Some a
   \<Longrightarrow> map_of items ''justification'' = Some j \<Longrightarrow> map_of items ''clause_mapping'' = Some c
   \<Longrightarrow> make_QueryResult (PDict items)
       = Inr \<lparr> decision = d, amount = a, justification = j, clause_mapping = c \<rparr>"
  by (simp add: make_QueryResult_def)

lemma make_QueryResult_fails_iff:
  "(\<exists>e. make_QueryResult v = Inl e) \<longleftrightarrow>
     \<not> (\<exists>items d a j c. v = PDict items \<and> length items = 4
            \<and> map_of items ''decision'' = Some d \<and> map_of items ''amount'' = Some a
            \<and> map_of items ''justification'' = Some j
            \<and> map_of items ''clause_mapping'' = Some c)"
  by (cases v) (auto simp: make_QueryResult_def split: option.splits)

text \<open>
  Claim C2, as amended. \<open>generate_response\<close> returns a result on every input: each
  exception of the source is a branch of the model, and none leaves the function. It
  answers with the fallback when there is no API key, when the call fails, when the reply
  is not JSON, and when the reply is no object with exactly the four fields. A reply that
  is an object with exactly the four fields becomes the result with its values as they
  are, whatever their types.
\<close>

theorem generate_response_failover:
  "(key = None \<or> key = Some [] \<or> outcome = CallFails \<or> outcome = NotJson
      \<or> (\<exists>v e. outcome = Json v \<and> make_QueryResult v = Inl e)
     \<longrightarrow> generate_response key outcome q hits = fallback_reasoning q hits)
   \<and> ((\<exists>e. make_QueryResult v = Inl e) \<longleftrightarrow>
        \<not> (\<exists>items d a j c. v = PDict items \<and> length items = 4
              \<and> map_of items ''decision'' = Some d \<and> map_of items ''amount'' = Some a
              \<and> map_of items ''justification'' = Some j
              \<and> map_of items ''clause_mapping'' = Some c))
   \<and> (key = Some k \<and> k \<noteq> [] \<and> outcome = Json (PDict items) \<and> length items = 4
        \<and> map_of items ''decision'' = Some d \<and> map_of items ''amount'' = Some a
        \<and> map_of items ''justification'' = Some j \<and> map_of items ''clause_mapping'' = Some c
       \<longrightarrow> generate_response key outcome q hits
             = \<lparr> decision = d, amount = a, justification = j, clause_mapping = c \<rparr>)"
proof (intro conjI impI)
  assume "key = None \<or> key = Some [] \<or> outcome = CallFails \<or> outcome = NotJson
      \<or> (\<exists>v e. outcome = Json v \<and> make_QueryResult v = Inl e)"
  then show "generate_response key outcome q hits = fallback_reasoning q hits"
    by (auto simp: generate_response_def primary_reasoning_def split: llm_outcome.splits sum.splits)
next
  show "(\<exists>e. make_QueryResult v = Inl e) \<longleftrightarrow>
        \<not> (\<exists>items d a j c. v = PDict items \<and> length items = 4
              \<and> map_of items ''decision'' = Some d \<and> map_of items ''amount'' = Some a
              \<and> map_of items ''justification'' = Some j
              \<and> map_of items ''clause_mapping'' = Some c)"
    by (rule make_QueryResult_fails_iff)
next
  assume a: "key = Some k \<and> k \<noteq> [] \<and> outcome = Json (PDict items) \<and> length items = 4
        \<and> map_of items ''decision'' = Some d \<and> map_of items ''amount'' = Some a
        \<and> map_of items ''justification'' = Some j \<and> map_of items ''clause_mapping'' = Some c"
  then have "make_QueryResult (PDict items)
       = Inr \<lparr> decision = d, amount = a, justification = j, clause_mapping = c \<rparr>"
    by (intro make_QueryResult_ok) simp_all
  with a show "generate_response key outcome q hits
             = \<lparr> decision = d, amount = a, justification = j, clause_mapping = c \<rparr>"
    by (simp add: generate_response_def primary_reasoning_def)
qed

theorem generate_response_failover_witness:
  "generate_response None CallFails ''is knee surgery covered''
       ([] :: (nat DocumentChunk \<times> real) list)
     = fallback_reasoning ''is knee surgery covered'' ([] :: (nat DocumentChunk \<times> real) list)
   \<and> generate_response (Some ''sk-test'') (Json (PList [])) ''is knee surgery covered''
       ([] :: (nat DocumentChunk \<times> real) list)
     = fallback_reasoning ''is knee surgery covered'' ([] :: (nat DocumentChunk \<times> real) list)
   \<and> generate_response (Some ''sk-test'')
         (Json (PDict [(''decision'', PStr ''approved''), (''amount'', PFloat 500),
                       (''justification'', PStr ''covered''), (''clause_mapping'', PList [])]))
         ''is knee surgery covered'' ([] :: (nat DocumentChunk \<times> real) list)
     = \<lparr> decision = PStr ''approved'', amount = PFloat 500, justification = PStr ''covered'',
         clause_mapping = PList [] \<rparr>"
proof (intro conjI)
  show "generate_response None CallFails ''is knee surgery covered''
       ([] :: (nat DocumentChunk \<times> real) list)
     = fallback_reasoning ''is knee surgery covered'' ([] :: (nat DocumentChunk \<times> real) list)"
    using generate_response_failover [of None CallFails "''is knee surgery covered''"
        "[] :: (nat DocumentChunk \<times> real) list", THEN conjunct1] by simp
next
  have "make_QueryResult (PList []) = Inl TypeError"
    by (simp add: make_QueryResult_def)
  then show "generate_response (Some ''sk-test'') (Json (PList [])) ''is knee surgery covered''
       ([] :: (nat DocumentChunk \<times> real) list)
     = fallback_reasoning ''is knee surgery covered'' ([] :: (nat DocumentChunk \<times> real) list)"
    using generate_response_failover [of "Some ''sk-test''" "Json (PList [])"
        "''is knee surgery covered''" "[] :: (nat DocumentChunk \<times> real) list", THEN conjunct1]
    by simp
next
  let ?items = "[(''decision'', PStr ''approved''), (''amount'', PFloat 500),
                 (''justification'', PStr ''covered''), (''clause_mapping'', PList [])]"
  show "generate_response (Some ''sk-test'') (Json (PDict ?items))
         ''is knee surgery covered'' ([] :: (nat DocumentChunk \<times> real) list)
     = \<lparr> decision = PStr ''approved'', amount = PFloat 500, justification = PStr ''covered'',
         clause_mapping = PList [] \<rparr>"
    using generate_response_failover [where key = "Some ''sk-test''"
        and outcome = "Json (PDict ?items)" and q = "''is knee surgery covered''"
        and hits = "[] :: (nat DocumentChunk \<times> real) list" and k = "''sk-test''" and items = ?items,
        THEN conjunct2, THEN conjunct2]
    by simp
qed

text \<open>
  Claim C2 as stated fails: a reply with the four fields and values of the wrong types is
  returned and the fallback is not used.
\<close>

theorem generate_response_wrong_types_counterexample:
  "generate_response (Some ''sk-test'')
     (Json (PDict [(''decision'', PInt 5), (''amount'', PStr ''much''),
                   (''justification'', PNone), (''clause_mapping'', PInt 0)]))
     ''is knee surgery covered''
     [(\<lparr> text = ''Knee surgery is covered up to Rs. 50,000'', page_number = 1,
         section = ''General'', filename = ''policy.pdf'', chunk_id = ''policy.pdf_p1_c1'',
         embedding = None :: nat option \<rparr>, 0.9)]
   = \<lparr> decision = PInt 5, amount = PStr ''much'', justification = PNone,
       clause_mapping = PInt 0 \<rparr>
   \<and> decision (fallback_reasoning ''is knee surgery covered''
     [(\<lparr> text = ''Knee surgery is covered up to Rs. 50,000'', page_number = 1,
         section = ''General'', filename = ''policy.pdf'', chunk_id = ''policy.pdf_p1_c1'',
         embedding = None :: nat option \<rparr>, 0.9)]) \<noteq> PInt 5"
proof
  show "generate_response (Some ''sk-test'')
     (Json (PDict [(''decision'', PInt 5), (''amount'', PStr ''much''),
                   (''justification'', PNone), (''clause_mapping'', PInt 0)]))
     ''is knee surgery covered''
     [(\<lparr> text = ''Knee surgery is covered up to Rs. 50,000'', page_number = 1,
         section = ''General'', filename = ''policy.pdf'', chunk_id = ''policy.pdf_p1_c1'',
         embedding = None :: nat option \<rparr>, 0.9)]
   = \<lparr> decision = PInt 5, amount = PStr ''much'', justification = PNone,
       clause_mapping = PInt 0 \<rparr>"
    by (simp add: generate_response_def primary_reasoning_def make_QueryResult_def)
next
  show "decision (fallback_reasoning ''is knee surgery covered''
     [(\<lparr> text = ''Knee surgery is covered up to Rs. 50,000'', page_number = 1,
         section = ''General'', filename = ''policy.pdf'', chunk_id = ''policy.pdf_p1_c1'',
         embedding = None :: nat option \<rparr>, 0.9)]) \<noteq> PInt 5"
    by (simp only: decision_fallback pyval.distinct not_False_eq_True)
qed

section \<open>Citations\<close>

lemma clause_mapping_fallback:
  "clause_mapping (fallback_reasoning q hits) = PList (map (\<lambda>(chunk, score). clause_entry chunk) (take 3 hits))"
  by (simp add: fallback_reasoning_def Let_def slice_to_def)

text \<open>
  Claim C8, as amended. The fallback cites the first three ranked hits in rank order, each
  with the source of its chunk, and each \<open>clause_text\<close> is a piece of the chunk's text or
  the first 200 characters of that text followed by three dots.
\<close>

theorem fallback_citations:
  "\<exists>cs. clause_mapping (fallback_reasoning q hits) = PList cs
        \<and> length cs = min 3 (length hits)
        \<and> (\<forall>i < length cs. \<exists>clause_text.
              cs ! i = PDict [(''clause_text'', PStr clause_text),
                              (''source'', PDict [(''filename'', PStr (filename (fst (hits ! i)))),
                                                  (''page'', PInt (page_number (fst (hits ! i)))),
                                                  (''section'', PStr (section (fst (hits ! i))))])]
              \<and> (sublist clause_text (text (fst (hits ! i)))
                  \<or> clause_text = take 200 (text (fst (hits ! i))) @ ''...''))"
proof (intro exI conjI allI impI)
  show "clause_mapping (fallback_reasoning q hits)
          = PList (map (\<lambda>(chunk, score). clause_entry chunk) (take 3 hits))"
    by (rule clause_mapping_fallback)
next
  show "length (map (\<lambda>(chunk, score). clause_entry chunk) (take 3 hits)) = min 3 (length hits)"
    by simp
next
  fix i
  assume "i < length (map (\<lambda>(chunk, score). clause_entry chunk) (take 3 hits))"
  then have i: "i < 3" "i < length hits" by simp_all
  let ?c = "fst (hits ! i)"
  let ?ct = "if length (text ?c) > 200 then take 200 (text ?c) @ ''...'' else text ?c"
  have "map (\<lambda>(chunk, score). clause_entry chunk) (take 3 hits) ! i = clause_entry ?c"
    using i by (simp add: case_prod_unfold)
  also have "\<dots> = PDict [(''clause_text'', PStr ?ct),
                        (''source'', PDict [(''filename'', PStr (filename ?c)),
                                            (''page'', PInt (page_number ?c)),
                                            (''section'', PStr (section ?c))])]"
    by (simp add: clause_entry_def slice_to_def)
  finally show "map (\<lambda>(chunk, score). clause_entry chunk) (take 3 hits) ! i =
      PDict [(''clause_text'', PStr ?ct),
             (''source'', PDict [(''filename'', PStr (filename ?c)),
                                 (''page'', PInt (page_number ?c)),
                                 (''section'', PStr (section ?c))])]" .
  show "sublist ?ct (text ?c) \<or> ?ct = take 200 (text ?c) @ ''...''"
    by simp
qed

theorem fallback_citations_witness:
  "\<exists>cs clause_text.
     clause_mapping (fallback_reasoning ''is knee surgery covered''
       [(\<lparr> text = ''Knee surgery is covered up to Rs. 50,000'', page_number = 4,
           section = ''BENEFITS'', filename = ''policy.pdf'', chunk_id = ''policy.pdf_p4_c1'',
           embedding = None :: nat option \<rparr>, 0.9)]) = PList cs
     \<and> length cs = 1
     \<and> cs ! 0 = PDict [(''clause_text'', PStr clause_text),
                        (''source'', PDict [(''filename'', PStr ''policy.pdf''),
                                            (''page'', PInt 4),
                                            (''section'', PStr ''BENEFITS'')])]
     \<and> (sublist clause_text ''Knee surgery is covered up to Rs. 50,000''
          \<or> clause_text = take 200 ''Knee surgery is covered up to Rs. 50,000'' @ ''...'')"
proof -
  let ?c = "\<lparr> text = ''Knee surgery is covered up to Rs. 50,000'', page_number = 4,
           section = ''BENEFITS'', filename = ''policy.pdf'', chunk_id = ''policy.pdf_p4_c1'',
           embedding = None :: nat option \<rparr>"
  let ?hits = "[(?c, 0.9 :: real)]"
  from fallback_citations [of "''is knee surgery covered''" ?hits]
  obtain cs where cs: "clause_mapping (fallback_reasoning ''is knee surgery covered'' ?hits) = PList cs"
    and len: "length cs = min 3 (length ?hits)"
    and each: "\<forall>i < length cs. \<exists>clause_text.
              cs ! i = PDict [(''clause_text'', PStr clause_text),
                              (''source'', PDict [(''filename'', PStr (filename (fst (?hits ! i)))),
                                                  (''page'', PInt (page_number (fst (?hits ! i)))),
                                                  (''section'', PStr (section (fst (?hits ! i))))])]
              \<and> (sublist clause_text (text (fst (?hits ! i)))
                  \<or> clause_text = take 200 (text (fst (?hits ! i))) @ ''...'')"
    by blast
  from len have len1: "length cs = 1" by simp
  with each have "\<exists>clause_text.
              cs ! 0 = PDict [(''clause_text'', PStr clause_text),
                              (''source'', PDict [(''filename'', PStr (filename (fst (?hits ! 0)))),
                                                  (''page'', PInt (page_number (fst (?hits ! 0)))),
                                                  (''section'', PStr (section (fst (?hits ! 0))))])]
              \<and> (sublist clause_text (text (fst (?hits ! 0)))
                  \<or> clause_text = take 200 (text (fst (?hits ! 0))) @ ''...'')"
    by simp
  then obtain ct where
    "cs ! 0 = PDict [(''clause_text'', PStr ct),
                     (''source'', PDict [(''filename'', PStr ''policy.pdf''),
                                         (''page'', PInt 4),
                                         (''section'', PStr ''BENEFITS'')])]"
    "sublist ct ''Knee surgery is covered up to Rs. 50,000''
       \<or> ct = take 200 ''Knee surgery is covered up to Rs. 50,000'' @ ''...''"
    by (auto simp only: nth_Cons_0 fst_conv DocumentChunk.simps)
  with cs len1 show ?thesis by (intro exI [of _ cs] exI [of _ ct]) (simp only: simp_thms)
qed

text \<open>
  Claim C8 as stated fails: the citations of a reply of the provider are returned as they
  are, so a \<open>clause_text\<close> that occurs in no chunk reaches the result.
\<close>

theorem provider_citation_counterexample:
  "clause_mapping (generate_response (Some ''sk-test'')
     (Json (PDict [(''decision'', PStr ''approved''), (''amount'', PNone),
                   (''justification'', PStr ''Covered under clause 4''),
                   (''clause_mapping'',
                    PList [PDict [(''clause_text'', PStr ''Knee surgery is always covered''),
                                  (''source'', PDict [(''filename'', PStr ''policy.pdf''),
                                                      (''page'', PInt 1),
                                                      (''section'', PStr ''General'')])]])]))
     ''is knee surgery covered''
     [(\<lparr> text = ''Cosmetic surgery is excluded'', page_number = 1, section = ''General'',
         filename = ''policy.pdf'', chunk_id = ''policy.pdf_p1_c1'',
         embedding = None :: nat option \<rparr>, 0.9)])
   = PList [PDict [(''clause_text'', PStr ''Knee surgery is always covered''),
                   (''source'', PDict [(''filename'', PStr ''policy.pdf''),
                                       (''page'', PInt 1),
                                       (''section'', PStr ''General'')])]]
   \<and> \<not> py_in ''Knee surgery is always covered'' ''Cosmetic surgery is excluded''
   \<and> ''Knee surgery is always covered'' \<noteq> take 200 ''Cosmetic surgery is excluded'' @ ''...''"
proof (intro conjI)
  show "\<not> py_in ''Knee surgery is always covered'' ''Cosmetic surgery is excluded''"
    by code_simp
next
  show "''Knee surgery is always covered'' \<noteq> take 200 ''Cosmetic surgery is excluded'' @ ''...''"
    by simp
qed (simp add: generate_response_def primary_reasoning_def make_QueryResult_def)

section \<open>Search\<close>




lemma argsort_props:
  "length (argsort xs) = length xs" "set (argsort xs) = {0..<length xs}" "distinct (argsort xs)"
  by (simp_all add: argsort_def)

lemma collect_results_ok:
  "\<forall>i \<in> set idxs. i < length cs \<Longrightarrow>
   collect_results cs sims idxs = Inr (map (\<lambda>i. (cs ! i, sims ! i)) idxs)"
  by (induction idxs) simp_all

lemma set_top_indices: "set (top_indices sims k) \<subseteq> {0..<length sims}"
proof -
  have "set (slice_to (rev (argsort sims)) k) \<subseteq> set (rev (argsort sims))"
    by (auto simp: slice_to_def dest: in_set_takeD)
  then show ?thesis by (simp add: top_indices_def argsort_props)
qed

lemma semantic_search_built:
  assumes "embeddings self = Some embs" "embs \<noteq> []"
    and "length (list_objs h (chunks self)) = length embs"
    and "enc [q] = Inr (qv # qvs)"
  shows "semantic_search enc cosine h self q top_k =
           Inr (map (\<lambda>i. (chunks_of h (chunks self) ! i, cosine qv (embs ! i)))
                  (top_indices (map (cosine qv) embs) top_k))"
proof -
  let ?sims = "map (cosine qv) embs"
  let ?idxs = "top_indices ?sims top_k"
  have in_range: "\<forall>i \<in> set ?idxs. i < length embs"
    using set_top_indices [of ?sims top_k] by auto
  then have "\<forall>i \<in> set ?idxs. i < length (chunks_of h (chunks self))"
    using assms(3) by (simp add: chunks_of_def)
  then have "collect_results (chunks_of h (chunks self)) ?sims ?idxs
               = Inr (map (\<lambda>i. (chunks_of h (chunks self) ! i, ?sims ! i)) ?idxs)"
    by (rule collect_results_ok)
  also have "map (\<lambda>i. (chunks_of h (chunks self) ! i, ?sims ! i)) ?idxs
               = map (\<lambda>i. (chunks_of h (chunks self) ! i, cosine qv (embs ! i))) ?idxs"
    using in_range by simp
  finally show ?thesis
    using assms by (simp add: semantic_search_def Let_def)
qed





lemma ex_built:
  "embeddings ex_engine = Some [7, 7]"
  "length (list_objs ex_store (chunks ex_engine)) = length [7 :: int, 7]"
  "ex_enc [''is surgery covered''] = Inr (1 # [])"
  by (simp_all add: ex_engine_def ex_store_def ex_enc_def)



text \<open>
  Claim C9, as amended. The search has no test on \<open>top_k\<close>. On a built index a
  \<open>top_k\<close> of zero gives the empty list, and a negative \<open>top_k\<close> gives the ranking
  without its last \<open>- top_k\<close> hits, as the slice \<open>[:top_k]\<close> does. No error is raised.
\<close>

theorem semantic_search_nonpositive_k:
  assumes "embeddings self = Some embs" and "embs \<noteq> []"
    and "length (list_objs h (chunks self)) = length embs"
    and "enc [q] = Inr (qv # qvs)"
    and "top_k \<le> 0"
  shows "semantic_search enc cosine h self q top_k
           = Inr (map (\<lambda>i. (chunks_of h (chunks self) ! i, cosine qv (embs ! i)))
                    (take (if top_k = 0 then 0 else length embs - nat (- top_k))
                       (rev (argsort (map (cosine qv) embs)))))"
proof -
  have "nat (int (length embs) + top_k) = length embs - nat (- top_k)"
    using assms(5) by linarith
  then have "top_indices (map (cosine qv) embs) top_k
          = take (if top_k = 0 then 0 else length embs - nat (- top_k))
              (rev (argsort (map (cosine qv) embs)))"
    using assms(5) by (cases "top_k = 0") (simp_all add: top_indices_def slice_to_def argsort_props)
  then show ?thesis
    using semantic_search_built [where enc = enc and cosine = cosine and top_k = top_k,
        OF assms(1-4)] by simp
qed

theorem semantic_search_nonpositive_k_witness:
  "semantic_search ex_enc ex_cosine ex_store ex_engine ''is surgery covered'' (- 1)
     = Inr [(ex_chunk ''Hip surgery is covered'' ''policy.pdf_p1_c2'', 7)]"
proof -
  have "semantic_search ex_enc ex_cosine ex_store ex_engine ''is surgery covered'' (- 1)
     = Inr (map (\<lambda>i. (chunks_of ex_store (chunks ex_engine) ! i, ex_cosine 1 ([7, 7] ! i)))
              (take (if (- 1 :: int) = 0 then 0 else length [7 :: int, 7] - nat (- (- 1)))
                 (rev (argsort (map (ex_cosine 1) [7, 7])))))"
    by (rule semantic_search_nonpositive_k [where self = ex_engine and embs = "[7, 7]"
          and h = ex_store and enc = ex_enc and q = "''is surgery covered''" and qv = 1
          and qvs = "[]" and top_k = "- 1" and cosine = ex_cosine])
       (simp_all add: ex_built)
  then show ?thesis
    by (simp add: chunks_of_def ex_store_def ex_engine_def ex_cosine_def argsort_def)
qed

text \<open>
  Claim C9 as stated fails: with \<open>top_k = 0\<close> the search returns normally.
\<close>

theorem semantic_search_zero_k_counterexample:
  "semantic_search ex_enc ex_cosine ex_store ex_engine ''is surgery covered'' 0 = Inr []"
  by (simp add: semantic_search_def ex_enc_def ex_cosine_def ex_store_def ex_engine_def
        chunks_of_def top_indices_def slice_to_def)

section \<open>Empty retrieval\<close>

text \<open>
  Claim C5, as amended. The empty hit list is handled by \<open>query\<close>, before
  \<open>generate_response\<close> is called: on a loaded system whose search returns no hit, the
  result is \<open>rejected\<close>, without amount, with the fixed justification and without
  citations.
\<close>

theorem query_empty_retrieval:
  assumes "is_initialized self"
    and "semantic_search enc cosine h (embedding_engine self) q top_k = Inr []"
  shows "query enc cosine outcome h self q top_k
           = Inr \<lparr> decision = PStr ''rejected'', amount = PNone,
                   justification = PStr ''No relevant policy clauses found for the query.'',
                   clause_mapping = PList [] \<rparr>"
  using assms by (simp add: query_def no_relevant_result_def)

theorem query_empty_retrieval_witness:
  "query ex_enc ex_cosine (Json (PStr ''unused'')) ex_store ex_rag ''is surgery covered'' 0
     = Inr \<lparr> decision = PStr ''rejected'', amount = PNone,
             justification = PStr ''No relevant policy clauses found for the query.'',
             clause_mapping = PList [] \<rparr>"
proof -
  have i: "is_initialized ex_rag" by (simp add: ex_rag_def)
  have "semantic_search ex_enc ex_cosine ex_store ex_engine ''is surgery covered'' 0 = Inr []"
    by (simp add: semantic_search_def ex_enc_def ex_cosine_def ex_store_def ex_engine_def
          chunks_of_def top_indices_def slice_to_def)
  then have s: "semantic_search ex_enc ex_cosine ex_store (embedding_engine ex_rag)
                  ''is surgery covered'' 0 = Inr []"
    by (simp add: ex_rag_def)
  show ?thesis by (rule query_empty_retrieval [OF i s])
qed

text \<open>
  Claim C5 as stated fails: \<open>generate_response\<close> itself has no test for an empty list,
  and its fallback approves when there is no chunk to reject.
\<close>

theorem generate_response_empty_counterexample:
  "decision (generate_response None CallFails ''is knee surgery covered''
               ([] :: (nat DocumentChunk \<times> real) list)) = PStr ''approved''"
  by (simp add: generate_response_def decision_fallback)

section \<open>Building the index\<close>

lemma store_embeddings_frame:
  "store_embeddings h irs embs = (h', err) \<Longrightarrow>
   list_objs h' = list_objs h \<and> next_ref h' = next_ref h"
proof (induction h irs embs arbitrary: h' err rule: store_embeddings.induct)
  case (1 h embs)
  then show ?case by simp
next
  case (2 h i r rest embs)
  show ?case
  proof (cases "i < length embs")
    case True
    with "2.prems" "2.IH" [OF True] show ?thesis by simp
  next
    case False
    with "2.prems" show ?thesis by simp
  qed
qed

lemma store_embeddings_writes:
  "store_embeddings h (enumerate n refs) embs = (h', err) \<Longrightarrow>
   n + length refs \<le> length embs \<Longrightarrow> distinct refs \<Longrightarrow>
   err = None
   \<and> (\<forall>i < length refs.
         chunk_objs h' (refs ! i) = (chunk_objs h (refs ! i))\<lparr> embedding := Some (embs ! (n + i)) \<rparr>)
   \<and> (\<forall>r. r \<notin> set refs \<longrightarrow> chunk_objs h' r = chunk_objs h r)"
proof (induction refs arbitrary: h n h' err)
  case Nil
  then show ?case by simp
next
  case (Cons r refs)
  let ?h1 = "h\<lparr> chunk_objs := (chunk_objs h)(r := (chunk_objs h r)\<lparr> embedding := Some (embs ! n) \<rparr>) \<rparr>"
  from Cons.prems have n: "n < length embs" by simp
  with Cons.prems have run: "store_embeddings ?h1 (enumerate (Suc n) refs) embs = (h', err)"
    by simp
  from Cons.prems have le: "Suc n + length refs \<le> length embs" and d: "distinct refs"
    and r: "r \<notin> set refs" by simp_all
  from Cons.IH [OF run le d]
  have e: "err = None"
    and w: "\<forall>i < length refs.
         chunk_objs h' (refs ! i) = (chunk_objs ?h1 (refs ! i))\<lparr> embedding := Some (embs ! (Suc n + i)) \<rparr>"
    and f: "\<forall>r'. r' \<notin> set refs \<longrightarrow> chunk_objs h' r' = chunk_objs ?h1 r'"
    by simp_all
  have "chunk_objs h' ((r # refs) ! i) = (chunk_objs h ((r # refs) ! i))\<lparr> embedding := Some (embs ! (n + i)) \<rparr>"
    if "i < length (r # refs)" for i
  proof (cases i)
    case 0
    with f r show ?thesis by simp
  next
    case (Suc j)
    with that have j: "j < length refs" by simp
    then have "refs ! j \<noteq> r" using r by (metis nth_mem)
    with w j Suc show ?thesis by simp
  qed
  moreover have "chunk_objs h' r' = chunk_objs h r'" if "r' \<notin> set (r # refs)" for r'
    using that f by simp
  ultimately show ?case using e by blast
qed

text \<open>
  Claim C10. For a non-empty list of chunks, \<open>create_embeddings\<close> keeps the reference of
  the caller's list as the engine's chunk list and makes no new object. The assignment
  comes before the batch call: when the encoder raises, the engine already refers to the
  new list while the matrix and every chunk are as before. When the encoder returns a
  vector for each chunk, the vectors become the matrix and each chunk object of the
  caller's list gets its vector in its \<open>embedding\<close> field; no other chunk object changes.
  The chunk objects of a list are taken to be distinct, as those of an extracted document
  are.
\<close>

theorem create_embeddings_in_place:
  assumes "list_objs h chunks_ref \<noteq> []"
    and "create_embeddings enc h self chunks_ref = (h', self', err)"
  shows "chunks self' = chunks_ref
       \<and> list_objs h' = list_objs h \<and> next_ref h' = next_ref h
       \<and> (\<forall>e. enc (map text (chunks_of h chunks_ref)) = Inl e
              \<longrightarrow> err = Some e \<and> h' = h \<and> embeddings self' = embeddings self)
       \<and> (\<forall>embs. enc (map text (chunks_of h chunks_ref)) = Inr embs
                 \<and> length (list_objs h chunks_ref) \<le> length embs
                 \<and> distinct (list_objs h chunks_ref)
              \<longrightarrow> err = None \<and> embeddings self' = Some embs
                  \<and> (\<forall>i < length (list_objs h chunks_ref).
                        chunk_objs h' (list_objs h chunks_ref ! i)
                          = (chunk_objs h (list_objs h chunks_ref ! i))
                              \<lparr> embedding := Some (embs ! i) \<rparr>)
                  \<and> (\<forall>r. r \<notin> set (list_objs h chunks_ref)
                        \<longrightarrow> chunk_objs h' r = chunk_objs h r))"
proof (cases "enc (map text (chunks_of h chunks_ref))")
  case (Inl e)
  with assms(2) have "h' = h" "err = Some e" "self' = self\<lparr> chunks := chunks_ref \<rparr>"
    by (simp_all add: create_embeddings_def)
  with Inl show ?thesis by simp
next
  case (Inr embs)
  let ?refs = "list_objs h chunks_ref"
  obtain h1 err1 where run: "store_embeddings h (enumerate 0 ?refs) embs = (h1, err1)"
    by (cases "store_embeddings h (enumerate 0 ?refs) embs")
  with assms(2) Inr have res: "h' = h1" "err = err1"
    "self' = self\<lparr> chunks := chunks_ref, embeddings := Some embs \<rparr>"
    by (simp_all add: create_embeddings_def)
  from store_embeddings_frame [OF run] res
  have frame: "list_objs h' = list_objs h \<and> next_ref h' = next_ref h" by simp
  have "err = None
      \<and> (\<forall>i < length ?refs.
            chunk_objs h' (?refs ! i) = (chunk_objs h (?refs ! i))\<lparr> embedding := Some (embs ! i) \<rparr>)
      \<and> (\<forall>r. r \<notin> set ?refs \<longrightarrow> chunk_objs h' r = chunk_objs h r)"
    if "length ?refs \<le> length embs" "distinct ?refs"
    using store_embeddings_writes [OF run] that res by simp
  with frame res(3) Inr show ?thesis by simp
qed


theorem create_embeddings_in_place_witness:
  "(case create_embeddings ex_enc ex_store \<lparr> chunks = 9, embeddings = None \<rparr> 2 of
      (h', self', err) \<Rightarrow>
        chunks self' = 2 \<and> list_objs h' = list_objs ex_store \<and> err = None
        \<and> embeddings self' = Some [1, 1]
        \<and> chunk_objs h' 0 = (chunk_objs ex_store 0)\<lparr> embedding := Some 1 \<rparr>
        \<and> chunk_objs h' 1 = (chunk_objs ex_store 1)\<lparr> embedding := Some 1 \<rparr>)"
proof -
  let ?self = "\<lparr> chunks = 9, embeddings = None :: int list option \<rparr>"
  obtain h' self' err where r: "create_embeddings ex_enc ex_store ?self 2 = (h', self', err)"
    by (cases "create_embeddings ex_enc ex_store ?self 2")
  have refs: "list_objs ex_store 2 = [0, 1]" by (simp add: ex_store_def)
  have ne: "list_objs ex_store 2 \<noteq> []" by (simp add: refs)
  have enc: "ex_enc (map text (chunks_of ex_store 2)) = Inr [1, 1]"
    by (simp add: chunks_of_def ex_store_def ex_enc_def ex_chunk_def)
  note T = create_embeddings_in_place [OF ne r]
  have a: "chunks self' = 2" "list_objs h' = list_objs ex_store"
    using T [THEN conjunct1] T [THEN conjunct2, THEN conjunct1] by simp_all
  have prem: "ex_enc (map text (chunks_of ex_store 2)) = Inr [1, 1]
              \<and> length (list_objs ex_store 2) \<le> length [1 :: int, 1]
              \<and> distinct (list_objs ex_store 2)"
    by (simp add: enc refs)
  have E: "err = None \<and> embeddings self' = Some [1, 1]
           \<and> (\<forall>i < length (list_objs ex_store 2).
                 chunk_objs h' (list_objs ex_store 2 ! i)
                   = (chunk_objs ex_store (list_objs ex_store 2 ! i))
                       \<lparr> embedding := Some ([1, 1] ! i) \<rparr>)
           \<and> (\<forall>r. r \<notin> set (list_objs ex_store 2) \<longrightarrow> chunk_objs h' r = chunk_objs ex_store r)"
    by (rule mp [OF spec [OF T [THEN conjunct2, THEN conjunct2, THEN conjunct2, THEN conjunct2]]
                  prem])
  have c: "err = None" "embeddings self' = Some [1, 1]"
    using E [THEN conjunct1] E [THEN conjunct2, THEN conjunct1] by simp_all
  note W = E [THEN conjunct2, THEN conjunct2, THEN conjunct1, unfolded refs]
  have w0: "chunk_objs h' 0 = (chunk_objs ex_store 0)\<lparr> embedding := Some 1 \<rparr>"
    using W [rule_format, of 0] by simp
  have w1: "chunk_objs h' 1 = (chunk_objs ex_store 1)\<lparr> embedding := Some 1 \<rparr>"
    using W [rule_format, of 1] by simp
  from a c w0 w1 show ?thesis by (simp add: r)
qed

section \<open>A failed reload\<close>

lemma process_document_chunking_failure:
  "extract_text_from_pdf fs (pdf_processor self) h pdf_path = Inl e
     \<Longrightarrow> process_document fs enc h self pdf_path = (h, self, Some e)"
  "extract_text_from_pdf fs (pdf_processor self) h pdf_path = Inr (h1, l)
     \<Longrightarrow> list_objs h1 l = []
     \<Longrightarrow> process_document fs enc h self pdf_path = (h1, self, Some ValueError)"
  by (simp_all add: process_document_def)

lemma ex_basename: "basename ''docs/new.pdf'' = ''new.pdf''"
  by code_simp

lemma ex_extract_chunks:
  "extract_chunks PDFProcessor_init ''new.pdf''
     [''Maternity expenses are covered after a waiting period of nine months.'']
   = [\<lparr> text = ''Maternity expenses are covered after a waiting period of nine months.'',
        page_number = 1, section = ''General'', filename = ''new.pdf'',
        chunk_id = ''new.pdf_p1_c1'', embedding = None :: int option \<rparr>]"
  by code_simp

lemma ex_extract_text:
  "extract_text_from_pdf ex_fs PDFProcessor_init ex_store ''docs/new.pdf''
   = Inr (ex_store\<lparr> chunk_objs := (chunk_objs ex_store)
                      (3 := \<lparr> text = ''Maternity expenses are covered after a waiting period of nine months.'',
                              page_number = 1, section = ''General'', filename = ''new.pdf'',
                              chunk_id = ''new.pdf_p1_c1'', embedding = None \<rparr>),
                    list_objs := (list_objs ex_store)(4 := [3]),
                    next_ref := 5 \<rparr>, 4)"
proof -
  have fs: "ex_fs ''docs/new.pdf''
          = Pages [''Maternity expenses are covered after a waiting period of nine months.'']"
    by (simp add: ex_fs_def)
  have n: "next_ref ex_store = 3" by (simp add: ex_store_def)
  show ?thesis
    by (simp add: extract_text_from_pdf_def fs ex_basename ex_extract_chunks new_list_def n)
qed

lemma ex_enc_long:
  "ex_enc [''Maternity expenses are covered after a waiting period of nine months.'']
   = Inl EncoderError"
  by (simp add: ex_enc_def)

lemma ex_search5:
  "semantic_search ex_enc ex_cosine ex_store ex_engine ''is surgery covered'' 5
     = Inr [(ex_chunk ''Hip surgery is covered'' ''policy.pdf_p1_c2'', 7),
            (ex_chunk ''Knee surgery is covered'' ''policy.pdf_p1_c1'', 7)]"
  by (simp add: semantic_search_def ex_enc_def ex_cosine_def ex_store_def ex_engine_def
        chunks_of_def top_indices_def argsort_def slice_to_def)

lemma ex_not_rejected:
  "scan_rejection [(ex_chunk ''Hip surgery is covered'' ''policy.pdf_p1_c2'', 7),
                   (ex_chunk ''Knee surgery is covered'' ''policy.pdf_p1_c1'', 7)] = ''approved''"
  by code_simp

lemma audit_fallback: "audit_trail (clause_mapping (fallback_reasoning q hits)) = None"
proof -
  have "audit_loop (map (\<lambda>(chunk, score). clause_entry chunk) hs) = None" for hs :: "('a DocumentChunk \<times> real) list"
    by (induction hs) (auto simp: clause_entry_def)
  then show ?thesis by (simp add: clause_mapping_fallback)
qed

lemma ex_query_before:
  "map_sum id decision
     (query ex_enc ex_cosine CallFails ex_store ex_rag ''is surgery covered'' 5)
   = Inr (PStr ''approved'')"
proof -
  have "semantic_search ex_enc ex_cosine ex_store (embedding_engine ex_rag)
          ''is surgery covered'' 5
     = Inr [(ex_chunk ''Hip surgery is covered'' ''policy.pdf_p1_c2'', 7),
            (ex_chunk ''Knee surgery is covered'' ''policy.pdf_p1_c1'', 7)]"
    using ex_search5 by (simp add: ex_rag_def)
  then show ?thesis
    by (simp add: query_def generate_response_def audit_fallback decision_fallback
          ex_not_rejected ex_rag_def del: scan_rejection.simps)
qed

text \<open>
  Claim C6. When extraction raises or yields no chunk, \<open>process_document\<close> leaves the
  orchestrator as it was (the lemma above). When the encoder raises, it does not: the
  engine already refers to the new list of chunks while it keeps the matrix of the prior
  corpus. On the example system, loaded with two chunks, a query is answered. The reload
  of a document with one chunk then fails in the encoder; afterwards the engine pairs the
  one new chunk with the two old rows, and the same query raises \<open>IndexError\<close> instead
  of being answered from the prior corpus.
\<close>

theorem process_document_failed_embedding:
  "map_sum id decision
     (query ex_enc ex_cosine CallFails ex_store ex_rag ''is surgery covered'' 5)
   = Inr (PStr ''approved'')
   \<and> (case process_document ex_fs ex_enc ex_store ex_rag ''docs/new.pdf'' of
      (h', rag', err) \<Rightarrow>
        err = Some EncoderError \<and> is_initialized rag'
        \<and> chunks (embedding_engine ex_rag) = 2
        \<and> chunks (embedding_engine rag') = 4
        \<and> map text (chunks_of h' (chunks (embedding_engine rag')))
            = [''Maternity expenses are covered after a waiting period of nine months.'']
        \<and> embeddings (embedding_engine rag') = Some [7, 7]
        \<and> query ex_enc ex_cosine CallFails h' rag' ''is surgery covered'' 5 = Inl IndexError)"
proof (intro conjI)
  show "map_sum id decision
     (query ex_enc ex_cosine CallFails ex_store ex_rag ''is surgery covered'' 5)
   = Inr (PStr ''approved'')"
    by (rule ex_query_before)
next
  show "(case process_document ex_fs ex_enc ex_store ex_rag ''docs/new.pdf'' of
      (h', rag', err) \<Rightarrow>
        err = Some EncoderError \<and> is_initialized rag'
        \<and> chunks (embedding_engine ex_rag) = 2
        \<and> chunks (embedding_engine rag') = 4
        \<and> map text (chunks_of h' (chunks (embedding_engine rag')))
            = [''Maternity expenses are covered after a waiting period of nine months.'']
        \<and> embeddings (embedding_engine rag') = Some [7, 7]
        \<and> query ex_enc ex_cosine CallFails h' rag' ''is surgery covered'' 5 = Inl IndexError)"
  proof -
    let ?c = "\<lparr> text = ''Maternity expenses are covered after a waiting period of nine months.'',
                page_number = 1, section = ''General'', filename = ''new.pdf'',
                chunk_id = ''new.pdf_p1_c1'', embedding = None :: int option \<rparr>"
    let ?h1 = "ex_store\<lparr> chunk_objs := (chunk_objs ex_store)(3 := ?c),
                          list_objs := (list_objs ex_store)(4 := [3]),
                          next_ref := 5 \<rparr>"
    let ?rag = "ex_rag\<lparr> embedding_engine := ex_engine\<lparr> chunks := 4 \<rparr> \<rparr>"
    have ce: "create_embeddings ex_enc ?h1 ex_engine 4
                = (?h1, ex_engine\<lparr> chunks := 4 \<rparr>, Some EncoderError)"
      by (simp add: create_embeddings_def chunks_of_def ex_enc_long)
    have pd: "process_document ex_fs ex_enc ex_store ex_rag ''docs/new.pdf''
                = (?h1, ?rag, Some EncoderError)"
      by (simp add: process_document_def ex_rag_def ex_extract_text ce)
    have ss: "semantic_search ex_enc ex_cosine ?h1 (ex_engine\<lparr> chunks := 4 \<rparr>)
                ''is surgery covered'' 5 = Inl IndexError"
      by (simp add: semantic_search_def ex_engine_def ex_enc_def ex_cosine_def chunks_of_def
            top_indices_def argsort_def slice_to_def)
    have q: "query ex_enc ex_cosine CallFails ?h1 ?rag ''is surgery covered'' 5 = Inl IndexError"
      by (simp add: query_def ex_rag_def ss)
    show ?thesis
      unfolding pd by (simp add: q) (simp add: ex_rag_def ex_engine_def chunks_of_def)
  qed
qed

section \<open>Section labels\<close>

lemma foldl_last_heading:
  "foldl (\<lambda>current_section line. if is_heading (strip line) then strip line
                                   else current_section) init lines
   = (if filter is_heading (map strip lines) = [] then init
      else last (filter is_heading (map strip lines)))"
  by (induction lines arbitrary: init) simp_all

lemma page_section_last_heading:
  "page_section txt =
     (if filter is_heading (map strip (split_lines txt)) = [] then ''General''
      else last (filter is_heading (map strip (split_lines txt))))"
  unfolding page_section_def by (rule foldl_last_heading)

lemma page_chunks_section:
  "c \<in> set (page_chunks self fname page_num txt)
   \<Longrightarrow> page_number c = int page_num + 1 \<and> section c = page_section txt"
  by (auto simp: page_chunks_def Let_def split: if_splits)

lemma extract_chunks_section:
  assumes "c \<in> set (extract_chunks self fname pages)"
  shows "\<exists>p < length pages. page_number c = int p + 1 \<and> section c = page_section (pages ! p)"
proof -
  from assms obtain p pg where pt: "(p, pg) \<in> set (enumerate 0 pages)"
    and c: "c \<in> set (page_chunks self fname p pg)"
    by (auto simp: extract_chunks_def)
  from pt have "p < length pages" "pg = pages ! p"
    by (auto simp: in_set_enumerate_eq)
  with page_chunks_section [OF c] show ?thesis by auto
qed

text \<open>
  Claim C7, as amended. Every chunk of a page carries one and the same section: the last
  line of that page which, stripped, is upper-case and has more than 5 and fewer than 100
  characters, or the default label \<open>General\<close> when the page has no such line. The label
  is computed from the whole page before its chunks are made, and anew for every page.
\<close>

theorem section_of_chunks:
  "(\<forall>c \<in> set (extract_chunks self fname pages).
      \<exists>p < length pages. page_number c = int p + 1 \<and> section c = page_section (pages ! p))
   \<and> page_section txt =
       (if filter is_heading (map strip (split_lines txt)) = [] then ''General''
        else last (filter is_heading (map strip (split_lines txt))))
   \<and> is_heading line = (length line > 5 \<and> isupper line \<and> length line < 100)"
  using extract_chunks_section page_section_last_heading is_heading_def by blast

lemma ex_two_pages:
  "extract_chunks PDFProcessor_init ''policy.pdf''
     [''COVERAGE TERMS'' @ [CHR 0x0A]
        @ ''Knee surgery is covered after a waiting period of two years.'',
      ''Hip surgery is covered after a waiting period of three years.'']
   = [\<lparr> text = ''COVERAGE TERMS Knee surgery is covered after a waiting period of two years.'',
        page_number = 1, section = ''COVERAGE TERMS'', filename = ''policy.pdf'',
        chunk_id = ''policy.pdf_p1_c1'', embedding = None :: int option \<rparr>,
      \<lparr> text = ''Hip surgery is covered after a waiting period of three years.'',
        page_number = 2, section = ''General'', filename = ''policy.pdf'',
        chunk_id = ''policy.pdf_p2_c1'', embedding = None \<rparr>]"
  by code_simp


theorem section_of_chunks_witness:
  "\<exists>p < length [''COVERAGE TERMS'' @ [CHR 0x0A]
                   @ ''Knee surgery is covered after a waiting period of two years.'',
                 ''Hip surgery is covered after a waiting period of three years.''].
     page_number \<lparr> text = ''Hip surgery is covered after a waiting period of three years.'',
                   page_number = 2, section = ''General'', filename = ''policy.pdf'',
                   chunk_id = ''policy.pdf_p2_c1'', embedding = None :: int option \<rparr>
       = int p + 1
     \<and> section \<lparr> text = ''Hip surgery is covered after a waiting period of three years.'',
                   page_number = 2, section = ''General'', filename = ''policy.pdf'',
                   chunk_id = ''policy.pdf_p2_c1'', embedding = None :: int option \<rparr>
       = page_section ([''COVERAGE TERMS'' @ [CHR 0x0A]
                          @ ''Knee surgery is covered after a waiting period of two years.'',
                        ''Hip surgery is covered after a waiting period of three years.''] ! p)"
proof -
  let ?pages = "[''COVERAGE TERMS'' @ [CHR 0x0A]
                   @ ''Knee surgery is covered after a waiting period of two years.'',
                 ''Hip surgery is covered after a waiting period of three years.'']"
  let ?c = "\<lparr> text = ''Hip surgery is covered after a waiting period of three years.'',
              page_number = 2, section = ''General'', filename = ''policy.pdf'',
              chunk_id = ''policy.pdf_p2_c1'', embedding = None :: int option \<rparr>"
  have mem: "?c \<in> set (extract_chunks PDFProcessor_init ''policy.pdf'' ?pages)"
    by (simp only: ex_two_pages list.set insertI1 insertI2 insert_iff simp_thms)
  show ?thesis
    by (rule bspec [OF conjunct1 [OF section_of_chunks
              [of PDFProcessor_init "''policy.pdf''" ?pages]] mem])
qed

text \<open>
  Claim C7 as stated fails: the heading of the first page is not carried to the second
  page, which has no heading of its own and gets the default label.
\<close>

theorem section_not_carried_counterexample:
  "map section
     (extract_chunks PDFProcessor_init ''policy.pdf''
        [''COVERAGE TERMS'' @ [CHR 0x0A]
           @ ''Knee surgery is covered after a waiting period of two years.'',
         ''Hip surgery is covered after a waiting period of three years.'']
      :: int DocumentChunk list)
   = [''COVERAGE TERMS'', ''General'']
   \<and> map page_number
     (extract_chunks PDFProcessor_init ''policy.pdf''
        [''COVERAGE TERMS'' @ [CHR 0x0A]
           @ ''Knee surgery is covered after a waiting period of two years.'',
         ''Hip surgery is covered after a waiting period of three years.'']
      :: int DocumentChunk list)
   = [1, 2]"
  by (simp only: ex_two_pages list.map DocumentChunk.simps simp_thms)

end
